theory Spec2Isabelle
  imports Complex_Main "HOL-Library.Word" "HOL-Library.Sublist"
begin

section \<open>Strings and numbers of the program\<close>

text \<open>
  The program is TypeScript running in a browser. A string is a sequence of UTF-16 code
  units, so it is modelled as a list of 16-bit words; \<open>length\<close> is the \<open>.length\<close> of
  the source. Numbers are IEEE doubles in the source; they are modelled as reals, that is,
  every sum, product and quotient is the exact one (no rounding, no NaN, no infinity).
  Where the source can divide by zero the model says so with an \<open>option\<close>.
\<close>

type_synonym jschar = "16 word"
type_synonym jsstring = "jschar list"

text \<open>ASCII literals of the source, written as HOL strings.\<close>

definition js :: "string \<Rightarrow> jsstring" where
  "js s = map (\<lambda>c. of_nat (of_char c)) s"

definition SPACE :: jschar where
  "SPACE = 0x20"

text \<open>
  \<open>String.prototype.trim\<close> removes the code units of the ECMAScript productions
  WhiteSpace and LineTerminator from both ends.
\<close>

definition is_whitespace :: "jschar \<Rightarrow> bool" where
  "is_whitespace c \<longleftrightarrow>
     c = 0x0009 \<or> c = 0x000A \<or> c = 0x000B \<or> c = 0x000C \<or> c = 0x000D \<or>
     c = 0x0020 \<or> c = 0x00A0 \<or> c = 0x1680 \<or> (0x2000 \<le> c \<and> c \<le> 0x200A) \<or>
     c = 0x2028 \<or> c = 0x2029 \<or> c = 0x202F \<or> c = 0x205F \<or> c = 0x3000 \<or>
     c = 0xFEFF"

definition trim :: "jsstring \<Rightarrow> jsstring" where
  "trim s = rev (dropWhile is_whitespace (rev (dropWhile is_whitespace s)))"

text \<open>
  \<open>text.split(' ')\<close>: the pieces between single spaces; the empty string gives one
  empty piece, and two adjacent spaces give an empty piece between them.
\<close>

fun split :: "jschar \<Rightarrow> jsstring \<Rightarrow> jsstring list" where
  "split sep [] = [[]]"
| "split sep (c # cs) =
     (if c = sep then [] # split sep cs
      else (case split sep cs of
              [] \<Rightarrow> [[c]]
            | w # ws \<Rightarrow> (c # w) # ws))"

text \<open>\<open>lines.join(' ')\<close>, the inverse direction, used to state the coverage property.\<close>

fun join :: "jschar \<Rightarrow> jsstring list \<Rightarrow> jsstring" where
  "join sep [] = []"
| "join sep [l] = l"
| "join sep (l # ls) = l @ [sep] @ join sep ls"

section \<open>Text measurement and wrapping\<close>

text \<open>
  \<open>calculateWrappedTextHeight(context, text, maxWidth, lineHeight)\<close>. The only use of
  \<open>context\<close> is \<open>context.measureText(s).width\<close> under the font the caller has set, so
  the context is modelled as that function from strings to widths.
\<close>

type_synonym measure_fn = "jsstring \<Rightarrow> real"

record wrap_result =
  lines :: "jsstring list"
  height :: real

text \<open>The guard \<open>!text || text.trim() === ''\<close>.\<close>

definition blank :: "jsstring \<Rightarrow> bool" where
  "blank text \<longleftrightarrow> text = [] \<or> trim text = []"

text \<open>
  One iteration of the \<open>for (const word of words)\<close> loop on the state
  \<open>(lines, currentLine)\<close>; the local array \<open>lines\<close> is written \<open>lns\<close>, since
  \<open>lines\<close> is the field of the result.
\<close>

definition wrap_step :: "measure_fn \<Rightarrow> real \<Rightarrow> jsstring list \<times> jsstring \<Rightarrow> jsstring
    \<Rightarrow> jsstring list \<times> jsstring" where
  "wrap_step measureText maxWidth st word =
     (case st of (lns, currentLine) \<Rightarrow>
        let testLine = (if length currentLine > 0 then currentLine @ [SPACE] @ word else word);
            width = measureText testLine
        in if width > maxWidth \<and> length currentLine > 0
           then (lns @ [currentLine], word)
           else (lns, testLine))"

fun wrap_loop :: "measure_fn \<Rightarrow> real \<Rightarrow> jsstring list \<Rightarrow> jsstring list \<times> jsstring
    \<Rightarrow> jsstring list \<times> jsstring" where
  "wrap_loop measureText maxWidth [] st = st"
| "wrap_loop measureText maxWidth (word # words) st =
     wrap_loop measureText maxWidth words (wrap_step measureText maxWidth st word)"

definition calculateWrappedTextHeight :: "measure_fn \<Rightarrow> jsstring \<Rightarrow> real \<Rightarrow> real
    \<Rightarrow> wrap_result" where
  "calculateWrappedTextHeight measureText text maxWidth lineHeight =
     (if blank text then \<lparr>lines = [], height = 0\<rparr>
      else
        (case wrap_loop measureText maxWidth (split SPACE text) ([], []) of
           (lns, currentLine) \<Rightarrow>
             let lns = lns @ [currentLine]
             in \<lparr>lines = lns, height = real (length lns) * lineHeight\<rparr>))"


text \<open>Shapes of input text used to state the coverage property.\<close>

fun double_space :: "jsstring \<Rightarrow> bool" where
  "double_space (a # b # cs) = ((a = SPACE \<and> b = SPACE) \<or> double_space (b # cs))"
| "double_space _ = False"

definition leading_space :: "jsstring \<Rightarrow> bool" where
  "leading_space s = (case s of [] \<Rightarrow> False | c # _ \<Rightarrow> c = SPACE)"

section \<open>The drawing surface\<close>

text \<open>
  The canvas is observed through the calls made on its 2D context. Each call is recorded
  with the state of the context at that moment (font, fill style, alignment, baseline,
  alpha), which is what decides how the call is painted.
\<close>

record image =
  imgWidth :: nat
  imgHeight :: nat

datatype font = Font nat real string  \<comment> \<open>weight, size in px, family\<close>

record context2d =
  font :: font
  fillStyle :: string
  textAlign :: string
  textBaseline :: string
  globalAlpha :: real

datatype draw_op =
    DrawImage context2d image real real
  | DrawImageScaled context2d image real real real real
  | FillRect context2d real real real real
  | FillText context2d jsstring real real

text \<open>The state of a fresh 2D context.\<close>

definition initial_context :: context2d where
  "initial_context =
     \<lparr>font = Font 400 10 ''sans-serif'', fillStyle = ''#000000'', textAlign = ''start'',
      textBaseline = ''alphabetic'', globalAlpha = 1\<rparr>"

text \<open>
  \<open>ctx.measureText(s).width\<close> depends on the font of the context; the browser's text
  shaping is a parameter of the model.
\<close>

type_synonym text_metrics = "font \<Rightarrow> jsstring \<Rightarrow> real"

definition measureText :: "text_metrics \<Rightarrow> context2d \<Rightarrow> measure_fn" where
  "measureText tm ctx = tm (font ctx)"

text \<open>\<open>drawWrappedText(context, lines, x, y, lineHeight)\<close>.\<close>

fun drawWrappedText :: "context2d \<Rightarrow> jsstring list \<Rightarrow> real \<Rightarrow> real \<Rightarrow> real \<Rightarrow> draw_op list" where
  "drawWrappedText ctx [] x currentY lineHeight = []"
| "drawWrappedText ctx (line # rest) x currentY lineHeight =
     FillText ctx line x currentY # drawWrappedText ctx rest x (currentY + lineHeight) lineHeight"

section \<open>Layout and compositor: \<open>renderTextOnImage\<close>\<close>

text \<open>
  The canvas takes the size of the base image, so \<open>canvas.width\<close> and \<open>canvas.height\<close>
  are natural numbers. The locals of the \<open>onload\<close> handler follow, each as a function of
  the inputs it depends on, under the name it has in the source.
\<close>

subsection \<open>Style calculations\<close>

definition padding :: "nat \<Rightarrow> real" where
  "padding canvasWidth = real canvasWidth * 0.06"

definition contentWidth :: "nat \<Rightarrow> real" where
  "contentWidth canvasWidth = real canvasWidth - (padding canvasWidth * 2)"

definition headlineFontSize :: "nat \<Rightarrow> real" where
  "headlineFontSize canvasWidth = max 24 (of_int \<lfloor>real canvasWidth / 20\<rfloor>)"

definition headlineLineHeight :: "nat \<Rightarrow> real" where
  "headlineLineHeight canvasWidth = headlineFontSize canvasWidth * 1.3"

definition bodyFontSize :: "nat \<Rightarrow> real" where
  "bodyFontSize canvasWidth = max 16 (of_int \<lfloor>real canvasWidth / 30\<rfloor>)"

definition bodyLineHeight :: "nat \<Rightarrow> real" where
  "bodyLineHeight canvasWidth = bodyFontSize canvasWidth * 1.4"

definition spacing :: "nat \<Rightarrow> real" where
  "spacing canvasWidth = bodyFontSize canvasWidth * 1.2"

text \<open>The three font settings: \<open>`700 ${headlineFontSize}px Inter, sans-serif`\<close> and so on.\<close>

definition headlineFont :: "nat \<Rightarrow> font" where
  "headlineFont canvasWidth = Font 700 (headlineFontSize canvasWidth) ''Inter, sans-serif''"

definition bodyFont :: "nat \<Rightarrow> font" where
  "bodyFont canvasWidth = Font 400 (bodyFontSize canvasWidth) ''Inter, sans-serif''"

definition ctaFontSize :: "nat \<Rightarrow> real" where
  "ctaFontSize canvasWidth = bodyFontSize canvasWidth * 1.1"

definition ctaFont :: "nat \<Rightarrow> font" where
  "ctaFont canvasWidth = Font 700 (ctaFontSize canvasWidth) ''Inter, sans-serif''"

subsection \<open>Content height calculation (dry run)\<close>

definition headlineMetrics :: "text_metrics \<Rightarrow> nat \<Rightarrow> jsstring \<Rightarrow> wrap_result" where
  "headlineMetrics tm canvasWidth headline =
     calculateWrappedTextHeight (measureText tm (initial_context\<lparr>font := headlineFont canvasWidth\<rparr>))
       headline (contentWidth canvasWidth) (headlineLineHeight canvasWidth)"

definition bodyMetrics :: "text_metrics \<Rightarrow> nat \<Rightarrow> jsstring \<Rightarrow> wrap_result" where
  "bodyMetrics tm canvasWidth body =
     calculateWrappedTextHeight (measureText tm (initial_context\<lparr>font := bodyFont canvasWidth\<rparr>))
       body (contentWidth canvasWidth) (bodyLineHeight canvasWidth)"

text \<open>
  The optional parameter \<open>ctaText?: string\<close> is an \<open>option\<close>. The test
  \<open>ctaText && ctaText.trim().length > 0\<close> fails for \<open>undefined\<close> and for the empty string.
\<close>

definition has_cta :: "jsstring option \<Rightarrow> bool" where
  "has_cta ctaText =
     (case ctaText of None \<Rightarrow> False | Some t \<Rightarrow> t \<noteq> [] \<and> length (trim t) > 0)"

definition ctaBlockHeight :: "nat \<Rightarrow> jsstring option \<Rightarrow> real" where
  "ctaBlockHeight canvasWidth ctaText =
     (if has_cta ctaText then ctaFontSize canvasWidth * 2.4 else 0)"

definition totalContentHeight :: "text_metrics \<Rightarrow> nat \<Rightarrow> jsstring \<Rightarrow> jsstring
    \<Rightarrow> jsstring option \<Rightarrow> real" where
  "totalContentHeight tm canvasWidth headline body ctaText =
     (let total = 0;
          total = total + height (headlineMetrics tm canvasWidth headline);
          total = (if height (bodyMetrics tm canvasWidth body) > 0
                   then total + (spacing canvasWidth + height (bodyMetrics tm canvasWidth body))
                   else total);
          total = (if has_cta ctaText
                   then total + (padding canvasWidth + ctaBlockHeight canvasWidth ctaText)
                   else total)
      in total)"

subsection \<open>Draw background\<close>

definition rectHeight :: "text_metrics \<Rightarrow> nat \<Rightarrow> jsstring \<Rightarrow> jsstring \<Rightarrow> jsstring option
    \<Rightarrow> real" where
  "rectHeight tm canvasWidth headline body ctaText =
     totalContentHeight tm canvasWidth headline body ctaText + (padding canvasWidth * 2)"

definition rectY :: "text_metrics \<Rightarrow> nat \<Rightarrow> nat \<Rightarrow> jsstring \<Rightarrow> jsstring \<Rightarrow> jsstring option
    \<Rightarrow> real" where
  "rectY tm canvasWidth canvasHeight headline body ctaText =
     real canvasHeight - rectHeight tm canvasWidth headline body ctaText"

definition safeRectY :: "text_metrics \<Rightarrow> nat \<Rightarrow> nat \<Rightarrow> jsstring \<Rightarrow> jsstring \<Rightarrow> jsstring option
    \<Rightarrow> real" where
  "safeRectY tm canvasWidth canvasHeight headline body ctaText =
     max 0 (rectY tm canvasWidth canvasHeight headline body ctaText)"

definition safeRectHeight :: "text_metrics \<Rightarrow> nat \<Rightarrow> nat \<Rightarrow> jsstring \<Rightarrow> jsstring
    \<Rightarrow> jsstring option \<Rightarrow> real" where
  "safeRectHeight tm canvasWidth canvasHeight headline body ctaText =
     real canvasHeight - safeRectY tm canvasWidth canvasHeight headline body ctaText"

subsection \<open>Draw content\<close>

text \<open>
  The value of \<open>currentY\<close> when the button's safety check is reached: after the
  headline, after the body when it has lines, and after \<open>currentY += padding\<close>.
\<close>

definition ctaNaturalY :: "text_metrics \<Rightarrow> nat \<Rightarrow> nat \<Rightarrow> jsstring \<Rightarrow> jsstring
    \<Rightarrow> jsstring option \<Rightarrow> real" where
  "ctaNaturalY tm canvasWidth canvasHeight headline body ctaText =
     (let currentY = safeRectY tm canvasWidth canvasHeight headline body ctaText
                       + padding canvasWidth;
          currentY = currentY + height (headlineMetrics tm canvasWidth headline);
          currentY = (if height (bodyMetrics tm canvasWidth body) > 0
                      then currentY + spacing canvasWidth
                             + height (bodyMetrics tm canvasWidth body)
                      else currentY);
          currentY = currentY + padding canvasWidth
      in currentY)"

text \<open>
  \<open>ctaText!\<close> where the button is drawn; the branch is entered only when
  \<open>ctaBlockHeight > 0\<close>, and \<open>measureText\<close> and \<open>fillText\<close> turn \<open>undefined\<close> into
  the string \<open>undefined\<close>.
\<close>

definition cta_label :: "jsstring option \<Rightarrow> jsstring" where
  "cta_label ctaText = (case ctaText of Some t \<Rightarrow> t | None \<Rightarrow> js ''undefined'')"

definition renderTextOnImage_onload :: "text_metrics \<Rightarrow> image \<Rightarrow> jsstring \<Rightarrow> jsstring
    \<Rightarrow> jsstring option \<Rightarrow> draw_op list" where
  "renderTextOnImage_onload tm baseImage headline body ctaText =
     (let canvasWidth = imgWidth baseImage;
          canvasHeight = imgHeight baseImage;
          ctx = initial_context;
          ops = [DrawImage ctx baseImage 0 0];
          \<comment> \<open>the dry run leaves the body font on the context\<close>
          ctx = ctx\<lparr>font := headlineFont canvasWidth\<rparr>;
          ctx = ctx\<lparr>font := bodyFont canvasWidth\<rparr>;
          \<comment> \<open>draw background\<close>
          ctx = ctx\<lparr>fillStyle := ''rgba(0, 0, 0, 0.65)''\<rparr>;
          ops = ops @ [FillRect ctx 0 (safeRectY tm canvasWidth canvasHeight headline body ctaText)
                         (real canvasWidth)
                         (safeRectHeight tm canvasWidth canvasHeight headline body ctaText)];
          \<comment> \<open>draw content\<close>
          ctx = ctx\<lparr>textAlign := ''center''\<rparr>;
          ctx = ctx\<lparr>textBaseline := ''top''\<rparr>;
          currentY = safeRectY tm canvasWidth canvasHeight headline body ctaText
                       + padding canvasWidth;
          \<comment> \<open>1. headline\<close>
          ctx = ctx\<lparr>fillStyle := ''white''\<rparr>;
          ctx = ctx\<lparr>font := headlineFont canvasWidth\<rparr>;
          ops = ops @ drawWrappedText ctx (lines (headlineMetrics tm canvasWidth headline))
                        (real canvasWidth / 2) currentY (headlineLineHeight canvasWidth);
          currentY = currentY + height (headlineMetrics tm canvasWidth headline);
          \<comment> \<open>2. body\<close>
          (ctx, ops, currentY) =
            (if height (bodyMetrics tm canvasWidth body) > 0
             then (let currentY = currentY + spacing canvasWidth;
                       ctx = ctx\<lparr>font := bodyFont canvasWidth\<rparr>;
                       ops = ops @ drawWrappedText ctx (lines (bodyMetrics tm canvasWidth body))
                                     (real canvasWidth / 2) currentY (bodyLineHeight canvasWidth);
                       currentY = currentY + height (bodyMetrics tm canvasWidth body)
                   in (ctx, ops, currentY))
             else (ctx, ops, currentY))
      in \<comment> \<open>3. call-to-action button\<close>
         if ctaBlockHeight canvasWidth ctaText > 0
         then (let currentY = currentY + padding canvasWidth;
                   \<comment> \<open>safety check to ensure the button is visible\<close>
                   currentY =
                     (if currentY + ctaBlockHeight canvasWidth ctaText > real canvasHeight
                      then real canvasHeight - ctaBlockHeight canvasWidth ctaText
                             - (padding canvasWidth / 2)
                      else currentY);
                   ctx = ctx\<lparr>font := ctaFont canvasWidth\<rparr>;
                   ctaButtonWidth = measureText tm ctx (cta_label ctaText)
                                      + (padding canvasWidth * 2);
                   ctaButtonX = (real canvasWidth - ctaButtonWidth) / 2;
                   ctx = ctx\<lparr>fillStyle := ''#bb86fc''\<rparr>;
                   ops = ops @ [FillRect ctx ctaButtonX currentY ctaButtonWidth
                                  (ctaBlockHeight canvasWidth ctaText)];
                   ctx = ctx\<lparr>fillStyle := ''#121212''\<rparr>;
                   ctx = ctx\<lparr>textBaseline := ''middle''\<rparr>
               in ops @ [FillText ctx (cta_label ctaText) (real canvasWidth / 2)
                           (currentY + ctaBlockHeight canvasWidth ctaText / 2)])
         else ops)"

text \<open>
  The promise around the handler: it is rejected when no 2D context can be had and when
  the base image fails to load; otherwise it resolves with the encoded canvas, modelled
  as the calls that painted it.
\<close>

datatype render_error = NoContext | ImageLoadError

definition renderTextOnImage :: "text_metrics \<Rightarrow> bool \<Rightarrow> image option \<Rightarrow> jsstring \<Rightarrow> jsstring
    \<Rightarrow> jsstring option \<Rightarrow> render_error + draw_op list" where
  "renderTextOnImage tm has_context baseImage headline body ctaText =
     (if \<not> has_context then Inl NoContext
      else (case baseImage of
              None \<Rightarrow> Inl ImageLoadError
            | Some img \<Rightarrow> Inr (renderTextOnImage_onload tm img headline body ctaText)))"

section \<open>Logo compositor: \<open>compositeImageWithLogo\<close>\<close>

text \<open>
  The rectangle the logo is drawn into. \<open>scale\<close> divides by the width of the logo
  image: for a width of 0 the quotient is not a finite number in the source, which the
  model reports as \<open>None\<close>.
\<close>

definition logo_rect :: "image \<Rightarrow> image \<Rightarrow> jsstring \<Rightarrow> (real \<times> real \<times> real \<times> real) option" where
  "logo_rect baseImage logoImage position =
     (let canvasWidth = real (imgWidth baseImage);
          canvasHeight = real (imgHeight baseImage);
          padding = canvasWidth * 0.05;
          logoWidth = canvasWidth * 0.2
      in if imgWidth logoImage = 0 then None
         else
           (let scale = logoWidth / real (imgWidth logoImage);
                logoHeight = real (imgHeight logoImage) * scale;
                (x, y) =
                  (if position = js ''top-left'' then (padding, padding)
                   else if position = js ''top-right''
                     then (canvasWidth - logoWidth - padding, padding)
                   else if position = js ''bottom-left''
                     then (padding, canvasHeight - logoHeight - padding)
                   else (canvasWidth - logoWidth - padding, canvasHeight - logoHeight - padding))
            in Some (x, y, logoWidth, logoHeight)))"

text \<open>
  The handler run when both images are loaded. \<open>drawImage\<close> with an argument that is
  not finite draws nothing.
\<close>

definition compositeImageWithLogo_onload :: "image \<Rightarrow> image \<Rightarrow> jsstring \<Rightarrow> draw_op list" where
  "compositeImageWithLogo_onload baseImage logoImage position =
     (let ctx = initial_context;
          ops = [DrawImage ctx baseImage 0 0];
          ctx = ctx\<lparr>globalAlpha := 0.9\<rparr>
      in (case logo_rect baseImage logoImage position of
            None \<Rightarrow> ops
          | Some (x, y, logoWidth, logoHeight) \<Rightarrow>
              ops @ [DrawImageScaled ctx logoImage x y logoWidth logoHeight]))"

section \<open>Measuring surfaces used in the examples\<close>

text \<open>A monospace surface: every code unit is half as wide as the font size.\<close>

definition mono_metrics :: text_metrics where
  "mono_metrics f s = (case f of Font weight px family \<Rightarrow> px / 2 * real (length s))"

definition char_count :: measure_fn where
  "char_count s = real (length s)"

text \<open>
  A surface on which adding text in front can make a string narrower: \<open>c d\<close> is wider
  than \<open>b c d\<close>.
\<close>

definition uneven_measure :: measure_fn where
  "uneven_measure s =
     (if s = js ''a b'' then 15
      else if s = js ''a b c'' \<or> s = js ''c d'' then 30
      else 5)"

section \<open>Properties of splitting and joining\<close>

lemma split_not_Nil: "split sep s \<noteq> []"
  by (induction s) (auto split: list.splits)

lemma join_snoc: "ls \<noteq> [] \<Longrightarrow> join sep (ls @ [l]) = join sep ls @ sep # l"
  by (induction sep ls rule: join.induct) auto

lemma join_Cons: "join sep (w # ws) = w @ concat (map ((#) sep) ws)"
  by (induction ws arbitrary: w) auto

lemma join_split: "join sep (split sep s) = s"
proof (induction s)
  case Nil
  show ?case by simp
next
  case (Cons c cs)
  obtain w ws where sp: "split sep cs = w # ws"
    using split_not_Nil [of sep cs] by (cases "split sep cs") auto
  with Cons show ?case
    by (cases ws) (auto simp: join_Cons)
qed




lemma trim_Nil_iff: "trim s = [] \<longleftrightarrow> (\<forall>c\<in>set s. is_whitespace c)"
proof
  assume "trim s = []"
  then have all: "\<forall>c\<in>set (dropWhile is_whitespace s). is_whitespace c"
    by (simp add: trim_def dropWhile_eq_Nil_conv)
  have "dropWhile is_whitespace s = []"
  proof (rule ccontr)
    assume ne: "dropWhile is_whitespace s \<noteq> []"
    then have "\<not> is_whitespace (hd (dropWhile is_whitespace s))"
      by (rule hd_dropWhile)
    moreover have "hd (dropWhile is_whitespace s) \<in> set (dropWhile is_whitespace s)"
      using ne by simp
    ultimately show False using all by blast
  qed
  then show "\<forall>c\<in>set s. is_whitespace c"
    by (simp add: dropWhile_eq_Nil_conv)
next
  assume "\<forall>c\<in>set s. is_whitespace c"
  then show "trim s = []"
    by (auto simp: trim_def dest: set_dropWhileD)
qed

lemma blank_iff: "blank text \<longleftrightarrow> (\<forall>c\<in>set text. is_whitespace c)"
  by (auto simp: blank_def trim_Nil_iff)

lemma wrap_step_simps:
  "wrap_step m W (lns, []) w = (lns, w)"
  "cur \<noteq> [] \<Longrightarrow> m (cur @ SPACE # w) > W \<Longrightarrow> wrap_step m W (lns, cur) w = (lns @ [cur], w)"
  "cur \<noteq> [] \<Longrightarrow> \<not> m (cur @ SPACE # w) > W \<Longrightarrow> wrap_step m W (lns, cur) w = (lns, cur @ SPACE # w)"
  by (simp_all add: wrap_step_def)

lemma wrap_step_cases:
  obtains (start) "cur = []" "wrap_step m W (lns, cur) w = (lns, w)"
  | (break) "cur \<noteq> []" "m (cur @ SPACE # w) > W" "wrap_step m W (lns, cur) w = (lns @ [cur], w)"
  | (extend) "cur \<noteq> []" "\<not> m (cur @ SPACE # w) > W" "wrap_step m W (lns, cur) w = (lns, cur @ SPACE # w)"
  by (cases "cur = []"; cases "m (cur @ SPACE # w) > W") (auto simp: wrap_step_def)

lemma lines_nonblank:
  "\<not> blank text \<Longrightarrow> lines (calculateWrappedTextHeight m text W L) =
     fst (wrap_loop m W (split SPACE text) ([], [])) @ [snd (wrap_loop m W (split SPACE text) ([], []))]"
  by (simp add: calculateWrappedTextHeight_def split: prod.splits)

lemma join_snoc_if: "join sep (ls @ [l]) = (if ls = [] then l else join sep ls @ sep # l)"
  by (simp add: join_snoc)

lemma step_join:
  assumes "cur \<noteq> []" and "wrap_step m W (lns, cur) w = (lns', cur')"
  shows "join SPACE (lns' @ [cur']) = join SPACE (lns @ [cur]) @ SPACE # w"
proof (cases rule: wrap_step_cases [where cur=cur and m=m and W=W and w=w and lns=lns])
  case start
  with assms show ?thesis by simp
next
  case break
  with assms have "lns' = lns @ [cur]" and "cur' = w" by simp_all
  then show ?thesis using join_snoc_if [of SPACE "lns @ [cur]" w] by simp
next
  case extend
  with assms have "lns' = lns" and "cur' = cur @ SPACE # w" by simp_all
  then show ?thesis by (simp add: join_snoc_if)
qed

lemma step_cur_nonempty:
  assumes "w \<noteq> []" and "wrap_step m W (lns, cur) w = (lns', cur')"
  shows "cur' \<noteq> []"
  using assms by (cases rule: wrap_step_cases [where cur=cur and m=m and W=W and w=w and lns=lns]) auto

lemma loop_join:
  "cur \<noteq> [] \<Longrightarrow> [] \<notin> set (butlast ws) \<Longrightarrow> wrap_loop m W ws (lns, cur) = (lns', cur')
   \<Longrightarrow> join SPACE (lns' @ [cur']) = join SPACE (lns @ [cur]) @ concat (map ((#) SPACE) ws)"
proof (induction ws arbitrary: lns cur)
  case Nil
  then show ?case by simp
next
  case (Cons w ws)
  obtain l1 c1 where st: "wrap_step m W (lns, cur) w = (l1, c1)"
    by (cases "wrap_step m W (lns, cur) w") auto
  have j1: "join SPACE (l1 @ [c1]) = join SPACE (lns @ [cur]) @ SPACE # w"
    using step_join [OF Cons.prems(1) st] .
  from Cons.prems(3) st have run: "wrap_loop m W ws (l1, c1) = (lns', cur')" by simp
  show ?case
  proof (cases "ws = []")
    case True
    with run j1 show ?thesis by simp
  next
    case False
    with Cons.prems(2) have w: "w \<noteq> []" and rest: "[] \<notin> set (butlast ws)" by auto
    from step_cur_nonempty [OF w st] have "c1 \<noteq> []" .
    from Cons.IH [OF this rest run] j1 show ?thesis by simp
  qed
qed

lemma inner_tokens_nonempty:
  "(\<not> double_space s \<longrightarrow> \<not> leading_space s \<longrightarrow> [] \<notin> set (butlast (split SPACE s))) \<and>
   (\<not> double_space s \<longrightarrow> [] \<notin> set (butlast (tl (split SPACE s))))"
proof (induction s)
  case Nil
  show ?case by simp
next
  case (Cons c cs)
  obtain w ws where sp: "split SPACE cs = w # ws"
    using split_not_Nil [of SPACE cs] by (cases "split SPACE cs") auto
  show ?case
  proof (cases "c = SPACE")
    case True
    have "\<not> double_space (c # cs) \<Longrightarrow> \<not> double_space cs \<and> \<not> leading_space cs"
      using True by (cases cs) (auto simp: leading_space_def)
    with Cons True show ?thesis by (auto simp: leading_space_def)
  next
    case False
    have "\<not> double_space (c # cs) \<Longrightarrow> \<not> double_space cs"
      by (cases cs) auto
    with Cons False sp show ?thesis by auto
  qed
qed

lemma wrap_join:
  assumes nb: "\<not> blank text" and nd: "\<not> double_space text" and nl: "\<not> leading_space text"
  shows "join SPACE (lines (calculateWrappedTextHeight m text W L)) = text"
proof -
  obtain w ws where sp: "split SPACE text = w # ws"
    using split_not_Nil [of SPACE "text"] by (cases "split SPACE text") auto
  have inner: "[] \<notin> set (butlast (w # ws))"
    using inner_tokens_nonempty [of "text"] nd nl sp by simp
  obtain lns cur where run: "wrap_loop m W ws ([], w) = (lns, cur)"
    by (cases "wrap_loop m W ws ([], w)") auto
  have L: "lines (calculateWrappedTextHeight m text W L) = lns @ [cur]"
    using nb sp run by (simp add: lines_nonblank wrap_step_simps)
  have "join SPACE (lns @ [cur]) = join SPACE (w # ws)"
  proof (cases "ws = []")
    case True
    with run show ?thesis by simp
  next
    case False
    with inner have "w \<noteq> []" and "[] \<notin> set (butlast ws)" by auto
    from loop_join [OF this run] show ?thesis by (simp add: join_Cons)
  qed
  with L sp show ?thesis using join_split [of SPACE "text"] by simp
qed








lemma step_monotone:
  assumes mono: "\<forall>a b. suffix a b \<longrightarrow> m a \<le> m b" and le: "W1 \<le> W2"
    and inv: "length l2 < length l1 \<or> (length l2 = length l1 \<and> suffix c2 c1)"
    and s1: "wrap_step m W1 (l1, c1) w = (l1', c1')"
    and s2: "wrap_step m W2 (l2, c2) w = (l2', c2')"
  shows "length l2' < length l1' \<or> (length l2' = length l1' \<and> suffix c2' c1')"
proof -
  have sw: "suffix w (c1 @ SPACE # w)"
    by (rule suffixI [of _ "c1 @ [SPACE]"]) simp
  have key: "suffix c2 c1 \<Longrightarrow> m (c2 @ SPACE # w) \<le> m (c1 @ SPACE # w)"
  proof -
    assume "suffix c2 c1"
    then have "suffix (c2 @ SPACE # w) (c1 @ SPACE # w)" by simp
    with mono show ?thesis by blast
  qed
  show ?thesis
  proof (cases rule: wrap_step_cases [where cur=c2 and m=m and W=W2 and w=w and lns=l2])
    case start
    with s2 have r2: "l2' = l2" "c2' = w" by simp_all
    show ?thesis
      using inv s1 r2 sw
      by (cases rule: wrap_step_cases [where cur=c1 and m=m and W=W1 and w=w and lns=l1]) auto
  next
    case break
    with s2 have r2: "l2' = l2 @ [c2]" "c2' = w" by simp_all
    show ?thesis
    proof (cases "length l2 < length l1")
      case True
      then show ?thesis using s1 r2 sw
        by (cases rule: wrap_step_cases [where cur=c1 and m=m and W=W1 and w=w and lns=l1]) auto
    next
      case False
      with inv have eq: "length l2 = length l1" and suf: "suffix c2 c1" by auto
      from suf break(1) have ne: "c1 \<noteq> []" by auto
      from key [OF suf] break(2) le have "m (c1 @ SPACE # w) > W1" by simp
      with ne s1 have "l1' = l1 @ [c1]" "c1' = w" by (simp_all add: wrap_step_simps)
      with r2 eq show ?thesis by simp
    qed
  next
    case extend
    with s2 have r2: "l2' = l2" "c2' = c2 @ SPACE # w" by simp_all
    note ne2 = extend(1)
    show ?thesis
    proof (cases rule: wrap_step_cases [where cur=c1 and m=m and W=W1 and w=w and lns=l1])
      case start
      with s1 inv r2 ne2 show ?thesis by auto
    next
      case break
      with s1 inv r2 show ?thesis by auto
    next
      case extend
      with s1 inv r2 show ?thesis by auto
    qed
  qed
qed

lemma loop_monotone:
  assumes mono: "\<forall>a b. suffix a b \<longrightarrow> m a \<le> m b" and le: "W1 \<le> W2"
  shows "length l2 < length l1 \<or> (length l2 = length l1 \<and> suffix c2 c1)
    \<Longrightarrow> length (fst (wrap_loop m W2 ws (l2, c2))) \<le> length (fst (wrap_loop m W1 ws (l1, c1)))"
proof (induction ws arbitrary: l1 c1 l2 c2)
  case Nil
  then show ?case by auto
next
  case (Cons w ws)
  obtain l1' c1' where s1: "wrap_step m W1 (l1, c1) w = (l1', c1')"
    by (cases "wrap_step m W1 (l1, c1) w") auto
  obtain l2' c2' where s2: "wrap_step m W2 (l2, c2) w = (l2', c2')"
    by (cases "wrap_step m W2 (l2, c2) w") auto
  from step_monotone [OF mono le Cons.prems s1 s2] Cons.IH s1 s2 show ?case by simp
qed

lemma wrap_mono:
  assumes mono: "\<forall>a b. suffix a b \<longrightarrow> m a \<le> m b" and le: "W1 \<le> W2"
  shows "length (lines (calculateWrappedTextHeight m text W2 L))
       \<le> length (lines (calculateWrappedTextHeight m text W1 L))"
proof (cases "blank text")
  case True
  then show ?thesis by (simp add: calculateWrappedTextHeight_def)
next
  case False
  have "length (fst (wrap_loop m W2 (split SPACE text) ([], [])))
      \<le> length (fst (wrap_loop m W1 (split SPACE text) ([], [])))"
    by (rule loop_monotone [OF mono le]) simp
  with False show ?thesis by (simp add: lines_nonblank)
qed


lemmas eval_defs = calculateWrappedTextHeight_def blank_def trim_def is_whitespace_def js_def
  SPACE_def wrap_step_def char_count_def

text \<open>
  Claim C1 (wrap coverage), as amended. For every measuring function, every maximal width
  and every text that is not blank, has no two adjacent spaces and does not start with a
  space, joining the returned lines with single spaces gives back the text itself; hence
  splitting the joined lines on single spaces gives the token sequence of the text: no
  word is dropped, duplicated or reordered.
\<close>

theorem wrap_coverage:
  assumes "\<not> blank text" and "\<not> double_space text" and "\<not> leading_space text"
  shows "join SPACE (lines (calculateWrappedTextHeight m text W L)) = text \<and>
         split SPACE (join SPACE (lines (calculateWrappedTextHeight m text W L))) = split SPACE text"
  using wrap_join [OF assms] by simp

theorem wrap_coverage_witness:
  "\<not> blank (js ''a bb ccc dd e'') \<and> \<not> double_space (js ''a bb ccc dd e'') \<and>
   \<not> leading_space (js ''a bb ccc dd e'') \<and>
   lines (calculateWrappedTextHeight char_count (js ''a bb ccc dd e'') 4 1) =
     [js ''a bb'', js ''ccc'', js ''dd e''] \<and>
   join SPACE (lines (calculateWrappedTextHeight char_count (js ''a bb ccc dd e'') 4 1)) =
     js ''a bb ccc dd e'' \<and>
   split SPACE (join SPACE (lines (calculateWrappedTextHeight char_count (js ''a bb ccc dd e'') 4 1))) =
     split SPACE (js ''a bb ccc dd e'')"
proof -
  have h1: "\<not> blank (js ''a bb ccc dd e'')" by (simp add: eval_defs)
  have h2: "\<not> double_space (js ''a bb ccc dd e'')" by (simp add: eval_defs)
  have h3: "\<not> leading_space (js ''a bb ccc dd e'')" by (simp add: leading_space_def js_def SPACE_def)
  have ev: "lines (calculateWrappedTextHeight char_count (js ''a bb ccc dd e'') 4 1) =
     [js ''a bb'', js ''ccc'', js ''dd e'']" by (simp add: eval_defs)
  from wrap_coverage [OF h1 h2 h3, of char_count 4 1] h1 h2 h3 ev show ?thesis by blast
qed

text \<open>
  The coverage property does not hold for every text without double spaces: a leading
  space gives an empty first token that the loop overwrites, and a blank text that is not
  made of spaces (a single tab) is one token, which the guard at the top discards.
\<close>

theorem wrap_coverage_counterexample:
  "\<not> double_space (js '' a'') \<and> (0::real) < 10 \<and>
   split SPACE (js '' a'') = [[], js ''a''] \<and>
   lines (calculateWrappedTextHeight char_count (js '' a'') 10 1) = [js ''a''] \<and>
   split SPACE (join SPACE (lines (calculateWrappedTextHeight char_count (js '' a'') 10 1)))
     = [js ''a''] \<and>
   split SPACE (join SPACE (lines (calculateWrappedTextHeight char_count (js '' a'') 10 1)))
     \<noteq> split SPACE (js '' a'') \<and>
   \<not> double_space [0x09] \<and>
   split SPACE [0x09] = [[0x09]] \<and>
   lines (calculateWrappedTextHeight char_count [0x09] 10 1) = [] \<and>
   split SPACE (join SPACE (lines (calculateWrappedTextHeight char_count [0x09] 10 1)))
     \<noteq> split SPACE [0x09]"
  by (simp add: eval_defs)



text \<open>
  Claim C3 (wrap empty). For every measuring function, width and line height, the empty
  string and every string made of whitespace only give \<open>{lines: [], height: 0}\<close>.
\<close>

theorem wrap_empty:
  assumes "\<forall>c\<in>set text. is_whitespace c"
  shows "calculateWrappedTextHeight m text W L = \<lparr>lines = [], height = 0\<rparr>"
  using assms by (simp add: calculateWrappedTextHeight_def blank_iff)

theorem wrap_empty_witness:
  "list_all is_whitespace (js []) \<and>
   calculateWrappedTextHeight char_count (js []) 5 2 = \<lparr>lines = [], height = 0\<rparr> \<and>
   list_all is_whitespace (js ''   '') \<and>
   calculateWrappedTextHeight char_count (js ''   '') 5 2 = \<lparr>lines = [], height = 0\<rparr>"
proof -
  have h1: "\<forall>c\<in>set (js []). is_whitespace c" by (simp add: js_def)
  have h2: "\<forall>c\<in>set (js ''   ''). is_whitespace c" by (simp add: js_def is_whitespace_def)
  from wrap_empty [OF h1, of char_count 5 2] wrap_empty [OF h2, of char_count 5 2] h1 h2
  show ?thesis by (simp add: list_all_iff)
qed

text \<open>
  Claim C4 (invariant of the result). For every input the height of the result is the
  number of lines times the line height; a blank text gives no line and height 0, and a
  text that is not blank gives at least one line.
\<close>

theorem wrap_result_invariant:
  "height (calculateWrappedTextHeight m text W L) =
     real (length (lines (calculateWrappedTextHeight m text W L))) * L \<and>
   (blank text \<longrightarrow> calculateWrappedTextHeight m text W L = \<lparr>lines = [], height = 0\<rparr>) \<and>
   (\<not> blank text \<longrightarrow> length (lines (calculateWrappedTextHeight m text W L)) \<ge> 1)"
  by (simp add: calculateWrappedTextHeight_def Let_def split: prod.splits)

theorem wrap_result_invariant_witness:
  "\<not> blank (js ''a bb ccc dd e'') \<and>
   length (lines (calculateWrappedTextHeight char_count (js ''a bb ccc dd e'') 4 7)) = 3 \<and>
   height (calculateWrappedTextHeight char_count (js ''a bb ccc dd e'') 4 7) = 21 \<and>
   blank (js '' '') \<and>
   calculateWrappedTextHeight char_count (js '' '') 4 7 = \<lparr>lines = [], height = 0\<rparr>"
proof -
  have h1: "\<not> blank (js ''a bb ccc dd e'')" by (simp add: eval_defs)
  have h2: "blank (js '' '')" by (simp add: eval_defs)
  have ev: "length (lines (calculateWrappedTextHeight char_count (js ''a bb ccc dd e'') 4 7)) = 3"
    by (simp add: eval_defs)
  from wrap_result_invariant [of char_count "js ''a bb ccc dd e''" 4 7]
       wrap_result_invariant [of char_count "js '' ''" 4 7] h1 h2 ev
  show ?thesis by simp
qed

text \<open>
  Claim C5 (monotonicity), as amended. For every measuring function under which a string
  is never narrower than any of its suffixes, for every text and line height, a larger
  maximal width never gives more lines.
\<close>

theorem wrap_monotonic:
  assumes "\<forall>a b. suffix a b \<longrightarrow> m a \<le> m b" and "W1 \<le> W2"
  shows "length (lines (calculateWrappedTextHeight m text W2 L))
       \<le> length (lines (calculateWrappedTextHeight m text W1 L))"
  using assms by (rule wrap_mono)

theorem wrap_monotonic_witness:
  "(4::real) \<le> 9 \<and>
   length (lines (calculateWrappedTextHeight char_count (js ''a bb ccc dd e'') 4 1)) = 3 \<and>
   length (lines (calculateWrappedTextHeight char_count (js ''a bb ccc dd e'') 9 1)) = 2 \<and>
   length (lines (calculateWrappedTextHeight char_count (js ''a bb ccc dd e'') 9 1))
     \<le> length (lines (calculateWrappedTextHeight char_count (js ''a bb ccc dd e'') 4 1))"
proof -
  have h1: "\<forall>a b. suffix a b \<longrightarrow> char_count a \<le> char_count b"
    by (simp add: char_count_def suffix_length_le)
  have h2: "(4::real) \<le> 9" by simp
  have e1: "length (lines (calculateWrappedTextHeight char_count (js ''a bb ccc dd e'') 4 1)) = 3"
    by (simp add: eval_defs)
  have e2: "length (lines (calculateWrappedTextHeight char_count (js ''a bb ccc dd e'') 9 1)) = 2"
    by (simp add: eval_defs)
  from wrap_monotonic [OF h1 h2, of "js ''a bb ccc dd e''" 1] h2 e1 e2 show ?thesis by blast
qed

text \<open>
  Without that condition on the measuring function a larger width can give more lines:
  on the uneven surface the text \<open>a b c d\<close> takes two lines at width 10 and three at
  width 20.
\<close>

theorem wrap_monotonic_counterexample:
  "(0::real) < 10 \<and> (10::real) \<le> 20 \<and>
   lines (calculateWrappedTextHeight uneven_measure (js ''a b c d'') 10 1) =
     [js ''a'', js ''b c d''] \<and>
   lines (calculateWrappedTextHeight uneven_measure (js ''a b c d'') 20 1) =
     [js ''a b'', js ''c'', js ''d''] \<and>
   \<not> length (lines (calculateWrappedTextHeight uneven_measure (js ''a b c d'') 20 1))
     \<le> length (lines (calculateWrappedTextHeight uneven_measure (js ''a b c d'') 10 1))"
  by (simp add: eval_defs uneven_measure_def)

section \<open>Properties of the compositors\<close>

lemma padding_nonneg: "0 \<le> padding cw"
  by (simp add: padding_def)

lemma bodyFontSize_ge: "16 \<le> bodyFontSize cw"
  by (simp add: bodyFontSize_def)

lemma headlineFontSize_ge: "24 \<le> headlineFontSize cw"
  by (simp add: headlineFontSize_def)

lemma ctaBlockHeight_pos: "has_cta c \<Longrightarrow> 0 < ctaBlockHeight cw c"
  using bodyFontSize_ge [of cw] by (simp add: ctaBlockHeight_def ctaFontSize_def)

lemma ctaBlockHeight_zero: "\<not> has_cta c \<Longrightarrow> ctaBlockHeight cw c = 0"
  by (simp add: ctaBlockHeight_def)

lemma wrap_height_nonneg: "0 \<le> L \<Longrightarrow> 0 \<le> height (calculateWrappedTextHeight m t W L)"
  by (simp add: calculateWrappedTextHeight_def Let_def split: prod.splits)

lemma headline_height_nonneg: "0 \<le> height (headlineMetrics tm cw h)"
  unfolding headlineMetrics_def using headlineFontSize_ge [of cw]
  by (intro wrap_height_nonneg) (simp add: headlineLineHeight_def)

lemma body_height_nonneg: "0 \<le> height (bodyMetrics tm cw b)"
  unfolding bodyMetrics_def using bodyFontSize_ge [of cw]
  by (intro wrap_height_nonneg) (simp add: bodyLineHeight_def)

lemma spacing_nonneg: "0 \<le> spacing cw"
  using bodyFontSize_ge [of cw] by (simp add: spacing_def)

lemma totalContentHeight_nonneg: "0 \<le> totalContentHeight tm cw h b c"
proof -
  have "0 \<le> ctaBlockHeight cw c"
    using ctaBlockHeight_pos [of c cw] ctaBlockHeight_zero [of c cw] by (cases "has_cta c") auto
  then show ?thesis
    using headline_height_nonneg [of tm cw h] body_height_nonneg [of tm cw b]
      spacing_nonneg [of cw] padding_nonneg [of cw]
    by (simp add: totalContentHeight_def Let_def)
qed

lemma render_prefix:
  "\<exists>rest. renderTextOnImage_onload tm \<lparr>imgWidth = cw, imgHeight = ch\<rparr> h b c =
     DrawImage initial_context \<lparr>imgWidth = cw, imgHeight = ch\<rparr> 0 0 #
     FillRect (initial_context\<lparr>font := bodyFont cw, fillStyle := ''rgba(0, 0, 0, 0.65)''\<rparr>)
       0 (safeRectY tm cw ch h b c) (real cw) (safeRectHeight tm cw ch h b c) # rest"
  by (simp add: renderTextOnImage_onload_def Let_def split: prod.splits)

lemma render_suffix:
  assumes "has_cta c"
  shows "\<exists>pre. renderTextOnImage_onload tm \<lparr>imgWidth = cw, imgHeight = ch\<rparr> h b c =
     pre @
     [FillRect \<lparr>font = ctaFont cw, fillStyle = ''#bb86fc'', textAlign = ''center'',
               textBaseline = ''top'', globalAlpha = 1\<rparr>
        ((real cw - (tm (ctaFont cw) (cta_label c) + padding cw * 2)) / 2)
        (if ctaNaturalY tm cw ch h b c + ctaBlockHeight cw c > real ch
         then real ch - ctaBlockHeight cw c - padding cw / 2
         else ctaNaturalY tm cw ch h b c)
        (tm (ctaFont cw) (cta_label c) + padding cw * 2)
        (ctaBlockHeight cw c),
      FillText \<lparr>font = ctaFont cw, fillStyle = ''#121212'', textAlign = ''center'',
               textBaseline = ''middle'', globalAlpha = 1\<rparr>
        (cta_label c) (real cw / 2)
        ((if ctaNaturalY tm cw ch h b c + ctaBlockHeight cw c > real ch
          then real ch - ctaBlockHeight cw c - padding cw / 2
          else ctaNaturalY tm cw ch h b c) + ctaBlockHeight cw c / 2)]"
  using ctaBlockHeight_pos [OF assms, of cw]
  by (simp add: renderTextOnImage_onload_def Let_def ctaNaturalY_def measureText_def
      initial_context_def split: prod.splits)



lemmas layout_defs = padding_def contentWidth_def headlineFontSize_def headlineLineHeight_def
  bodyFontSize_def bodyLineHeight_def spacing_def headlineFont_def bodyFont_def ctaFontSize_def
  ctaFont_def headlineMetrics_def bodyMetrics_def has_cta_def ctaBlockHeight_def
  totalContentHeight_def rectHeight_def rectY_def safeRectY_def safeRectHeight_def
  ctaNaturalY_def cta_label_def measureText_def initial_context_def mono_metrics_def
  calculateWrappedTextHeight_def blank_def trim_def is_whitespace_def js_def SPACE_def
  wrap_step_def

text \<open>
  Claim C6 (panel clamp). The second call on the canvas fills the panel: it starts at
  \<open>max(0, canvasHeight - (totalContentHeight + 2 * padding))\<close> and its height is the
  canvas height minus that start, so the height is never negative and never more than
  the canvas height; when the content is at least as tall as the canvas the panel starts
  at 0 and has the height of the canvas.
\<close>

theorem panel_clamp:
  "renderTextOnImage_onload tm \<lparr>imgWidth = cw, imgHeight = ch\<rparr> headline body ctaText ! 1 =
     FillRect (initial_context\<lparr>font := bodyFont cw, fillStyle := ''rgba(0, 0, 0, 0.65)''\<rparr>)
       0 (safeRectY tm cw ch headline body ctaText) (real cw)
       (safeRectHeight tm cw ch headline body ctaText) \<and>
   safeRectY tm cw ch headline body ctaText =
     max 0 (real ch - (totalContentHeight tm cw headline body ctaText + 2 * padding cw)) \<and>
   safeRectHeight tm cw ch headline body ctaText =
     real ch - safeRectY tm cw ch headline body ctaText \<and>
   0 \<le> safeRectHeight tm cw ch headline body ctaText \<and>
   safeRectHeight tm cw ch headline body ctaText \<le> real ch \<and>
   (real ch \<le> totalContentHeight tm cw headline body ctaText \<longrightarrow>
      safeRectY tm cw ch headline body ctaText = 0 \<and>
      safeRectHeight tm cw ch headline body ctaText = real ch)"
proof -
  obtain rest where
    "renderTextOnImage_onload tm \<lparr>imgWidth = cw, imgHeight = ch\<rparr> headline body ctaText =
       DrawImage initial_context \<lparr>imgWidth = cw, imgHeight = ch\<rparr> 0 0 #
       FillRect (initial_context\<lparr>font := bodyFont cw, fillStyle := ''rgba(0, 0, 0, 0.65)''\<rparr>)
         0 (safeRectY tm cw ch headline body ctaText) (real cw)
         (safeRectHeight tm cw ch headline body ctaText) # rest"
    using render_prefix [of tm cw ch headline body ctaText] by blast
  then have op: "renderTextOnImage_onload tm \<lparr>imgWidth = cw, imgHeight = ch\<rparr> headline body ctaText ! 1 =
     FillRect (initial_context\<lparr>font := bodyFont cw, fillStyle := ''rgba(0, 0, 0, 0.65)''\<rparr>)
       0 (safeRectY tm cw ch headline body ctaText) (real cw)
       (safeRectHeight tm cw ch headline body ctaText)"
    by simp
  have geo: "safeRectY tm cw ch headline body ctaText =
      max 0 (real ch - (totalContentHeight tm cw headline body ctaText + 2 * padding cw))"
    "safeRectHeight tm cw ch headline body ctaText =
      real ch - safeRectY tm cw ch headline body ctaText"
    by (simp_all add: safeRectY_def safeRectHeight_def rectY_def rectHeight_def)
  have nn: "0 \<le> totalContentHeight tm cw headline body ctaText" "0 \<le> padding cw"
    by (rule totalContentHeight_nonneg, rule padding_nonneg)
  from geo nn have bounds: "0 \<le> safeRectHeight tm cw ch headline body ctaText"
    "safeRectHeight tm cw ch headline body ctaText \<le> real ch"
    by auto
  from geo nn have clamp: "real ch \<le> totalContentHeight tm cw headline body ctaText \<longrightarrow>
      safeRectY tm cw ch headline body ctaText = 0 \<and>
      safeRectHeight tm cw ch headline body ctaText = real ch"
    by auto
  from op geo bounds clamp show ?thesis by blast
qed

theorem panel_clamp_witness:
  "real 10 \<le> totalContentHeight mono_metrics 100 [] [] (Some (js ''Go'')) \<and>
   safeRectY mono_metrics 100 10 [] [] (Some (js ''Go'')) = 0 \<and>
   safeRectHeight mono_metrics 100 10 [] [] (Some (js ''Go'')) = real 10 \<and>
   renderTextOnImage_onload mono_metrics \<lparr>imgWidth = 100, imgHeight = 10\<rparr> [] []
       (Some (js ''Go'')) ! 1 =
     FillRect (initial_context\<lparr>font := bodyFont 100, fillStyle := ''rgba(0, 0, 0, 0.65)''\<rparr>)
       0 0 (real 100) (real 10)"
proof -
  have h: "real 10 \<le> totalContentHeight mono_metrics 100 [] [] (Some (js ''Go''))"
    by (simp add: layout_defs)
  from panel_clamp [of mono_metrics 100 10 "[]" "[]" "Some (js ''Go'')"] h
  show ?thesis by simp
qed




text \<open>
  Claim C8 (geometry of the button). With a call-to-action that is not blank, the button
  is as wide as the label measured in the bold font of size \<open>bodyFontSize * 1.1\<close> plus
  twice the padding, its left edge is at \<open>(canvasWidth - buttonWidth) / 2\<close>, and the
  label is drawn last, centred on \<open>canvasWidth / 2\<close> with the middle baseline at the
  vertical midpoint of the button.
\<close>

theorem cta_button_geometry:
  assumes "has_cta (Some t)"
  shows "\<exists>y. last (butlast (renderTextOnImage_onload tm \<lparr>imgWidth = cw, imgHeight = ch\<rparr> headline
             body (Some t))) =
           FillRect \<lparr>font = Font 700 (bodyFontSize cw * 1.1) ''Inter, sans-serif'',
                     fillStyle = ''#bb86fc'', textAlign = ''center'', textBaseline = ''top'',
                     globalAlpha = 1\<rparr>
             ((real cw - (tm (Font 700 (bodyFontSize cw * 1.1) ''Inter, sans-serif'') t
                          + 2 * padding cw)) / 2)
             y
             (tm (Font 700 (bodyFontSize cw * 1.1) ''Inter, sans-serif'') t + 2 * padding cw)
             (ctaBlockHeight cw (Some t)) \<and>
         last (renderTextOnImage_onload tm \<lparr>imgWidth = cw, imgHeight = ch\<rparr> headline body
             (Some t)) =
           FillText \<lparr>font = Font 700 (bodyFontSize cw * 1.1) ''Inter, sans-serif'',
                     fillStyle = ''#121212'', textAlign = ''center'', textBaseline = ''middle'',
                     globalAlpha = 1\<rparr>
             t (real cw / 2) (y + ctaBlockHeight cw (Some t) / 2)"
proof -
  let ?y = "if ctaNaturalY tm cw ch headline body (Some t) + ctaBlockHeight cw (Some t) > real ch
         then real ch - ctaBlockHeight cw (Some t) - padding cw / 2
         else ctaNaturalY tm cw ch headline body (Some t)"
  from render_suffix [OF assms, of tm cw ch headline body]
  obtain pre where ops:
    "renderTextOnImage_onload tm \<lparr>imgWidth = cw, imgHeight = ch\<rparr> headline body (Some t) =
     pre @
     [FillRect \<lparr>font = ctaFont cw, fillStyle = ''#bb86fc'', textAlign = ''center'',
               textBaseline = ''top'', globalAlpha = 1\<rparr>
        ((real cw - (tm (ctaFont cw) (cta_label (Some t)) + padding cw * 2)) / 2)
        ?y
        (tm (ctaFont cw) (cta_label (Some t)) + padding cw * 2)
        (ctaBlockHeight cw (Some t)),
      FillText \<lparr>font = ctaFont cw, fillStyle = ''#121212'', textAlign = ''center'',
               textBaseline = ''middle'', globalAlpha = 1\<rparr>
        (cta_label (Some t)) (real cw / 2)
        (?y + ctaBlockHeight cw (Some t) / 2)]"
    by blast
  have f: "ctaFont cw = Font 700 (bodyFontSize cw * 1.1) ''Inter, sans-serif''"
    by (simp add: ctaFont_def ctaFontSize_def)
  have l: "cta_label (Some t) = t" by (simp add: cta_label_def)
  have w: "padding cw * 2 = 2 * padding cw" by simp
  show ?thesis
    by (rule exI [of _ ?y]) (simp only: ops f l w butlast_snoc last_snoc butlast_append last_appendR
        append_Cons append_Nil butlast.simps last.simps list.simps if_False if_True simp_thms)
qed

theorem cta_button_geometry_witness:
  "has_cta (Some (js ''Shop Now'')) \<and>
   (\<exists>y. last (butlast (renderTextOnImage_onload mono_metrics \<lparr>imgWidth = 1080, imgHeight = 1920\<rparr>
             (js ''Big Sale'') (js ''Today only'') (Some (js ''Shop Now'')))) =
           FillRect \<lparr>font = Font 700 39.6 ''Inter, sans-serif'',
                     fillStyle = ''#bb86fc'', textAlign = ''center'', textBaseline = ''top'',
                     globalAlpha = 1\<rparr>
             ((1080 - (158.4 + 2 * 64.8)) / 2) y (158.4 + 2 * 64.8) 95.04 \<and>
         last (renderTextOnImage_onload mono_metrics \<lparr>imgWidth = 1080, imgHeight = 1920\<rparr>
             (js ''Big Sale'') (js ''Today only'') (Some (js ''Shop Now''))) =
           FillText \<lparr>font = Font 700 39.6 ''Inter, sans-serif'',
                     fillStyle = ''#121212'', textAlign = ''center'', textBaseline = ''middle'',
                     globalAlpha = 1\<rparr>
             (js ''Shop Now'') 540 (y + 95.04 / 2))"
proof -
  have h: "has_cta (Some (js ''Shop Now''))" by (simp add: layout_defs)
  have e1: "bodyFontSize 1080 * 1.1 = 39.6" by (simp add: layout_defs)
  have e2: "padding 1080 = 64.8" by (simp add: layout_defs)
  have e3: "ctaBlockHeight 1080 (Some (js ''Shop Now'')) = 95.04" by (simp add: layout_defs)
  have e4: "mono_metrics (Font 700 39.6 ''Inter, sans-serif'') (js ''Shop Now'') = 158.4"
    by (simp add: layout_defs)
  from cta_button_geometry [OF h, of mono_metrics 1080 1920 "js ''Big Sale''" "js ''Today only''"]
  show ?thesis unfolding e1 e2 e3 e4 using h by simp
qed

text \<open>
  Claim C9 (logo placement). For a logo image of positive width, the logo is drawn 20% of
  the canvas width wide, with the height scaled by the same factor
  \<open>logoWidth / logoImage.width\<close>, at a distance of 5% of the canvas width from the two
  edges named by the position; every position other than \<open>top-left\<close>, \<open>top-right\<close> and
  \<open>bottom-left\<close> is placed as \<open>bottom-right\<close>.
\<close>

theorem logo_placement:
  assumes "0 < lw"
  shows "compositeImageWithLogo_onload \<lparr>imgWidth = cw, imgHeight = ch\<rparr>
           \<lparr>imgWidth = lw, imgHeight = lh\<rparr> position =
         [DrawImage initial_context \<lparr>imgWidth = cw, imgHeight = ch\<rparr> 0 0,
          DrawImageScaled (initial_context\<lparr>globalAlpha := 0.9\<rparr>) \<lparr>imgWidth = lw, imgHeight = lh\<rparr>
            (if position = js ''top-left'' \<or> position = js ''bottom-left''
             then real cw * 0.05 else real cw - real cw * 0.2 - real cw * 0.05)
            (if position = js ''top-left'' \<or> position = js ''top-right''
             then real cw * 0.05
             else real ch - real cw * 0.2 / real lw * real lh - real cw * 0.05)
            (real cw * 0.2)
            (real cw * 0.2 / real lw * real lh)] \<and>
         (position \<noteq> js ''top-left'' \<and> position \<noteq> js ''top-right'' \<and>
          position \<noteq> js ''bottom-left'' \<longrightarrow>
            compositeImageWithLogo_onload \<lparr>imgWidth = cw, imgHeight = ch\<rparr>
              \<lparr>imgWidth = lw, imgHeight = lh\<rparr> position =
            compositeImageWithLogo_onload \<lparr>imgWidth = cw, imgHeight = ch\<rparr>
              \<lparr>imgWidth = lw, imgHeight = lh\<rparr> (js ''bottom-right''))"
proof -
  have ne: "js ''top-left'' \<noteq> js ''top-right''" "js ''top-left'' \<noteq> js ''bottom-left''"
    "js ''top-right'' \<noteq> js ''bottom-left''" "js ''bottom-right'' \<noteq> js ''top-left''"
    "js ''bottom-right'' \<noteq> js ''top-right''" "js ''bottom-right'' \<noteq> js ''bottom-left''"
    by (simp_all add: js_def)
  show ?thesis
    using assms ne
    by (auto simp: compositeImageWithLogo_onload_def logo_rect_def Let_def)
qed

theorem logo_placement_witness:
  "(0::nat) < 100 \<and>
   compositeImageWithLogo_onload \<lparr>imgWidth = 500, imgHeight = 500\<rparr>
       \<lparr>imgWidth = 100, imgHeight = 50\<rparr> (js ''top-left'') =
     [DrawImage initial_context \<lparr>imgWidth = 500, imgHeight = 500\<rparr> 0 0,
      DrawImageScaled (initial_context\<lparr>globalAlpha := 0.9\<rparr>) \<lparr>imgWidth = 100, imgHeight = 50\<rparr>
        25 25 100 50] \<and>
   js ''center'' \<noteq> js ''top-left'' \<and> js ''center'' \<noteq> js ''top-right'' \<and>
   js ''center'' \<noteq> js ''bottom-left'' \<and>
   compositeImageWithLogo_onload \<lparr>imgWidth = 500, imgHeight = 500\<rparr>
       \<lparr>imgWidth = 100, imgHeight = 50\<rparr> (js ''center'') =
     compositeImageWithLogo_onload \<lparr>imgWidth = 500, imgHeight = 500\<rparr>
       \<lparr>imgWidth = 100, imgHeight = 50\<rparr> (js ''bottom-right'') \<and>
   compositeImageWithLogo_onload \<lparr>imgWidth = 500, imgHeight = 500\<rparr>
       \<lparr>imgWidth = 100, imgHeight = 50\<rparr> (js ''center'') =
     [DrawImage initial_context \<lparr>imgWidth = 500, imgHeight = 500\<rparr> 0 0,
      DrawImageScaled (initial_context\<lparr>globalAlpha := 0.9\<rparr>) \<lparr>imgWidth = 100, imgHeight = 50\<rparr>
        375 425 100 50]"
proof -
  have h: "(0::nat) < 100" by simp
  have ne: "js ''center'' \<noteq> js ''top-left''" "js ''center'' \<noteq> js ''top-right''"
    "js ''center'' \<noteq> js ''bottom-left''" "js ''top-left'' = js ''top-left''"
    by (simp_all add: js_def)
  have a: "compositeImageWithLogo_onload \<lparr>imgWidth = 500, imgHeight = 500\<rparr>
       \<lparr>imgWidth = 100, imgHeight = 50\<rparr> (js ''top-left'') =
     [DrawImage initial_context \<lparr>imgWidth = 500, imgHeight = 500\<rparr> 0 0,
      DrawImageScaled (initial_context\<lparr>globalAlpha := 0.9\<rparr>) \<lparr>imgWidth = 100, imgHeight = 50\<rparr>
        25 25 100 50]"
    using logo_placement [OF h, of 500 500 50 "js ''top-left''"] by simp
  have b: "compositeImageWithLogo_onload \<lparr>imgWidth = 500, imgHeight = 500\<rparr>
       \<lparr>imgWidth = 100, imgHeight = 50\<rparr> (js ''center'') =
     [DrawImage initial_context \<lparr>imgWidth = 500, imgHeight = 500\<rparr> 0 0,
      DrawImageScaled (initial_context\<lparr>globalAlpha := 0.9\<rparr>) \<lparr>imgWidth = 100, imgHeight = 50\<rparr>
        375 425 100 50]"
    using logo_placement [OF h, of 500 500 50 "js ''center''"] ne by simp
  have c: "compositeImageWithLogo_onload \<lparr>imgWidth = 500, imgHeight = 500\<rparr>
       \<lparr>imgWidth = 100, imgHeight = 50\<rparr> (js ''center'') =
     compositeImageWithLogo_onload \<lparr>imgWidth = 500, imgHeight = 500\<rparr>
       \<lparr>imgWidth = 100, imgHeight = 50\<rparr> (js ''bottom-right'')"
    using logo_placement [OF h, of 500 500 50 "js ''center''"] ne by blast
  from h a b c ne show ?thesis by blast
qed



end
